theory Spec2Isabelle
  imports Main "HOL-Library.AList"
begin

section \<open>JavaScript values\<close>

text \<open>
  The stream handles values whose shape it does not inspect: document fields, metadata
  attributes, the error object handed over by the client. They are modelled by a small
  universe of JavaScript values. An object is an association list in insertion order;
  assigning a property replaces the value of an existing key in place and appends a new key
  at the end (\<open>AList.update\<close>). Reading a missing property gives \<open>undefined\<close>.
  Numbers are integers here: hit counts and totals are, and no property below depends on
  fractional values.
\<close>

datatype jsval =
    JUndefined
  | JNull
  | JBool bool
  | JNum int
  | JStr string
  | JArr "jsval list"
  | JObj "(string \<times> jsval) list"

type_synonym obj = "(string \<times> jsval) list"

text \<open>The truth value JavaScript gives a value in \<open>if (v)\<close>, \<open>!!v\<close> and \<open>v || d\<close>.\<close>

fun truthy :: "jsval \<Rightarrow> bool" where
  "truthy JUndefined = False"
| "truthy JNull = False"
| "truthy (JBool b) = b"
| "truthy (JNum n) = (n \<noteq> 0)"
| "truthy (JStr s) = (s \<noteq> [])"
| "truthy (JArr xs) = True"
| "truthy (JObj kvs) = True"

definition js_or :: "jsval \<Rightarrow> jsval \<Rightarrow> jsval" where
  "js_or a b = (if truthy a then a else b)"

definition get_prop :: "obj \<Rightarrow> string \<Rightarrow> jsval" where
  "get_prop ob k = (case map_of ob k of Some v \<Rightarrow> v | None \<Rightarrow> JUndefined)"

definition set_prop :: "obj \<Rightarrow> string \<Rightarrow> jsval \<Rightarrow> obj" where
  "set_prop ob k v = AList.update k v ob"

text \<open>Property access on an arbitrary value: only objects carry the properties read here.\<close>

fun js_prop :: "jsval \<Rightarrow> string \<Rightarrow> jsval" where
  "js_prop (JObj kvs) k = get_prop kvs k"
| "js_prop v k = JUndefined"

subsection \<open>Numbers in string concatenation\<close>

fun nat_str :: "nat \<Rightarrow> string" where
  "nat_str n =
     (if n < 10 then [''0123456789'' ! n]
      else nat_str (n div 10) @ [''0123456789'' ! (n mod 10)])"

declare nat_str.simps [simp del]

definition num_str :: "int \<Rightarrow> string" where
  "num_str i = (if i < 0 then ''-'' @ nat_str (nat (- i)) else nat_str (nat i))"

section \<open>The response of the client\<close>

text \<open>
  The file assumes a client of the \<open>elasticsearch\<close> library. The fields the callback reads
  are: \<open>hits.hits\<close>, \<open>hits.total\<close> (a number, or from Elasticsearch 7 an object with \<open>value\<close>
  and \<open>relation\<close>), \<open>timedOut\<close>, \<open>_shards\<close> and \<open>_scroll_id\<close>. A hit has an optional
  \<open>fields\<close> projection, its \<open>_source\<close>, and top-level attributes (\<open>_id\<close>, \<open>_score\<close>, ...)
  read by name through \<open>hit[entry]\<close>; the names the constructor documents for them
  (\<open>_id\<close>, \<open>_score\<close>, \<open>_type\<close>, \<open>_index\<close>, \<open>_parent\<close>, \<open>_routing\<close>) are kept in
  \<open>hit_attrs\<close>. \<open>timedOut\<close> is the truth value of \<open>body.timedOut\<close>.
\<close>

datatype hits_total = Count int | Relation (tvalue: int) (relation: string)

record hit =
  hit_fields :: "obj option"
  hit_source :: obj
  hit_attrs :: obj

record shards =
  sh_total :: int
  successful :: int
  failed :: int

record body =
  hits :: "hit list"
  hits_total :: hits_total
  timedOut :: bool
  shards :: shards
  scroll_id :: string

text \<open>
  Newer clients wrap the payload in \<open>response.body\<close>; older ones return it directly
  (\<open>!!response.body ? response.body : response\<close>).
\<close>

datatype response = Wrapped body | Bare body

fun response_body :: "response \<Rightarrow> body" where
  "response_body (Wrapped b) = b"
| "response_body (Bare b) = b"

text \<open>\<open>typeof total === 'object' ? total.value : total\<close>\<close>

fun total_of :: "hits_total \<Rightarrow> int" where
  "total_of (Relation v r) = v"
| "total_of (Count n) = n"

text \<open>The \<open>_shards\<close> object as it is attached to an error.\<close>

definition shards_val :: "shards \<Rightarrow> jsval" where
  "shards_val sh =
     JObj [(''total'', JNum (sh_total sh)),
           (''successful'', JNum (successful sh)),
           (''failed'', JNum (failed sh))]"

section \<open>The stream\<close>

text \<open>
  The fields of the instance: \<open>_options\<close> (the query, with its \<open>scroll\<close> duration),
  \<open>_extrafields\<close>, \<open>_reading\<close>, \<open>_counter\<close>, \<open>_total\<close> (\<open>total_hits\<close>) and \<open>_forceClose\<close>,
  and the \<open>objectMode\<close> of the readable state, which comes from the stream options. The
  client is the environment: its calls are actions, its answers are events.
\<close>

record query_opts =
  scroll :: jsval
  query :: jsval

record stream =
  options :: query_opts
  extrafields :: "string list"
  objectMode :: bool
  reading :: bool
  counter :: int
  total_hits :: int
  forceClose :: bool

text \<open>
  What the stream does to the outside, in the order it does it: calls on the client,
  chunks pushed to the consumer (\<open>PushNull\<close> is \<open>push(null)\<close>, the end of the stream),
  the \<open>error\<close> event, console output, and the function handed to \<open>setImmediate\<close>.
  \<open>Text r\<close> stands for the string \<open>JSON.stringify(r)\<close>.
\<close>

datatype chunk = Object obj | Text obj

datatype action =
    Search query_opts
  | Scroll jsval string
  | ClearScroll "string list"
  | Push chunk
  | PushNull
  | EmitError jsval
  | ConsoleLog string
  | ConsoleError jsval
  | SetImmediate

text \<open>The constructor: no request is made, the scroll duration defaults to \<open>'10m'\<close>.\<close>

definition LibElasticsearchScrollStream :: "query_opts \<Rightarrow> string list \<Rightarrow> bool \<Rightarrow> stream" where
  "LibElasticsearchScrollStream query_opts optional_fields object_mode =
     \<lparr> options = query_opts \<lparr> scroll := js_or (scroll query_opts) (JStr ''10m'') \<rparr>,
       extrafields = optional_fields,
       objectMode = object_mode,
       reading = False,
       counter = 0,
       total_hits = 0,
       forceClose = False \<rparr>"

text \<open>\<open>_read\<close>: guarded by \<open>_reading\<close>, otherwise starts a search.\<close>

definition read :: "stream \<Rightarrow> stream \<times> action list" where
  "read self =
     (if reading self then (self, [])
      else (self \<lparr> reading := True \<rparr>, [Search (options self)]))"

text \<open>The record built from one hit, and the loop over the hits of a page.\<close>

definition ref_results :: "string list \<Rightarrow> hit \<Rightarrow> obj" where
  "ref_results extra h =
     foldl (\<lambda>r entry. set_prop r entry (get_prop (hit_attrs h) entry))
       (case hit_fields h of Some f \<Rightarrow> f | None \<Rightarrow> hit_source h) extra"

fun forEach_hit :: "stream \<Rightarrow> hit list \<Rightarrow> stream \<times> action list" where
  "forEach_hit self [] = (self, [])"
| "forEach_hit self (h # hs) =
     (let r = ref_results (extrafields self) h;
          a = Push (if objectMode self then Object r else Text r);
          (self', as) = forEach_hit (self \<lparr> counter := counter self + 1 \<rparr>) hs
      in (self', a # as))"

text \<open>The callback of \<open>search\<close> and \<open>scroll\<close>.\<close>

definition getMoreUntilDone :: "jsval \<Rightarrow> response \<Rightarrow> stream \<Rightarrow> stream \<times> action list" where
  "getMoreUntilDone err response self0 =
     (if truthy err then (self0, [EmitError err])
      else
        let body = response_body response;
            self = self0 \<lparr> total_hits := total_of (hits_total body) \<rparr>
        in
          if timedOut body then
            (self, [EmitError (JObj [(''message'', JStr ''Scroll request timed out''),
                                     (''timedOut'', JBool True),
                                     (''total'', JNum (total_hits self)),
                                     (''counter'', JNum (counter self))])])
          else if failed (shards body) > 0 then
            (self, [EmitError (JObj [(''message'', JStr ''At least one shard failed''),
                                     (''shards'', shards_val (shards body)),
                                     (''total'', JNum (total_hits self)),
                                     (''counter'', JNum (counter self))])])
          else if length (hits body) = 0 then
            (let missingObjects = total_hits self - counter self;
                 message = ''No more hits. Expected '' @ num_str missingObjects
                           @ '' more objects. Closing stream.''
             in (self, [ConsoleLog (''Read 0 ('' @ num_str (counter self) @ ''/''
                                    @ num_str (total_hits self) @ '')''),
                        EmitError (JObj [(''message'', JStr message),
                                         (''total'', JNum (total_hits self)),
                                         (''counter'', JNum (counter self)),
                                         (''missing'', JNum missingObjects)])]))
          else
            (let (self', pushes) = forEach_hit self (hits body);
                 log = ConsoleLog (''Read '' @ num_str (int (length (hits body))) @ '' (''
                                   @ num_str (counter self') @ ''/''
                                   @ num_str (total_hits self') @ '')'')
             in if total_hits self' \<noteq> counter self' \<and> \<not> forceClose self' then
                  (self', pushes @ [log, Scroll (scroll (options self')) (scroll_id body)])
                else
                  (self', pushes @ [log, ClearScroll [scroll_id body]])))"

text \<open>The callback of \<open>clearScroll\<close>, and the function it defers with \<open>setImmediate\<close>.\<close>

definition clearScroll_callback :: "jsval \<Rightarrow> stream \<Rightarrow> stream \<times> action list" where
  "clearScroll_callback err self =
     (self, (if truthy err then [ConsoleError err] else []) @ [SetImmediate])"

definition end_correctly :: "stream \<Rightarrow> stream \<times> action list" where
  "end_correctly self =
     (self \<lparr> reading := False, counter := 0, forceClose := False \<rparr>, [PushNull])"

definition close :: "stream \<Rightarrow> stream" where
  "close self = self \<lparr> forceClose := True \<rparr>"

section \<open>The event loop\<close>

text \<open>
  The callbacks run when the client answers and when the event loop reaches the deferred
  function. A configuration is the stream together with the asynchronous work it has
  started and that has not run yet; an event is a call from outside (\<open>Pull\<close> is \<open>_read\<close>,
  \<open>Close\<close> is \<open>close\<close>) or the completion of one piece of that work. A completion is only
  possible for work that is outstanding, and consumes it: the client calls each callback
  once.
\<close>

datatype pending = AwaitReply | AwaitClearAck | AwaitImmediate

datatype event =
    Pull
  | Close
  | Reply jsval response
  | ClearAck jsval
  | Immediate

fun spawned :: "action \<Rightarrow> pending list" where
  "spawned (Search q) = [AwaitReply]"
| "spawned (Scroll d t) = [AwaitReply]"
| "spawned (ClearScroll ts) = [AwaitClearAck]"
| "spawned SetImmediate = [AwaitImmediate]"
| "spawned a = []"

type_synonym config = "stream \<times> pending list"

definition complete :: "pending \<Rightarrow> (stream \<Rightarrow> stream \<times> action list) \<Rightarrow> config
    \<Rightarrow> (config \<times> action list) option" where
  "complete w f c =
     (if w \<in> set (snd c) then
        (let (self', as) = f (fst c)
         in Some ((self', remove1 w (snd c) @ concat (map spawned as)), as))
      else None)"

fun step :: "event \<Rightarrow> config \<Rightarrow> (config \<times> action list) option" where
  "step Pull c =
     (let (self', as) = read (fst c)
      in Some ((self', snd c @ concat (map spawned as)), as))"
| "step Close c = Some ((close (fst c), snd c), [])"
| "step (Reply err response) c = complete AwaitReply (getMoreUntilDone err response) c"
| "step (ClearAck err) c = complete AwaitClearAck (clearScroll_callback err) c"
| "step Immediate c = complete AwaitImmediate end_correctly c"

fun run :: "event list \<Rightarrow> config \<Rightarrow> (config \<times> action list) option" where
  "run [] c = Some (c, [])"
| "run (e # es) c =
     (case step e c of
        None \<Rightarrow> None
      | Some (c', as) \<Rightarrow>
          (case run es c' of
             None \<Rightarrow> None
           | Some (c'', bs) \<Rightarrow> Some (c'', as @ bs)))"

section \<open>Observations on the actions\<close>

fun client_call :: "action \<Rightarrow> bool" where
  "client_call (Search q) = True"
| "client_call (Scroll d t) = True"
| "client_call (ClearScroll ts) = True"
| "client_call a = False"

fun is_scroll :: "action \<Rightarrow> bool" where
  "is_scroll (Scroll d t) = True"
| "is_scroll a = False"

fun is_push :: "action \<Rightarrow> bool" where
  "is_push (Push c) = True"
| "is_push a = False"

text \<open>The chunk pushed for one hit, as the body of the loop computes it.\<close>

definition push_of :: "stream \<Rightarrow> hit \<Rightarrow> action" where
  "push_of self h =
     (let r = ref_results (extrafields self) h
      in Push (if objectMode self then Object r else Text r))"

text \<open>A page that passes the three checks of the callback and reaches the loop.\<close>

definition clean_page :: "jsval \<Rightarrow> response \<Rightarrow> bool" where
  "clean_page err response =
     (\<not> truthy err \<and> \<not> timedOut (response_body response)
      \<and> \<not> failed (shards (response_body response)) > 0
      \<and> hits (response_body response) \<noteq> [])"

text \<open>
  The error object of the empty-page branch, for an expected total \<open>t\<close> and a counter \<open>c\<close>.
\<close>

definition no_more_hits_error :: "int \<Rightarrow> int \<Rightarrow> jsval" where
  "no_more_hits_error t c =
     JObj [(''message'', JStr (''No more hits. Expected '' @ num_str (t - c)
                               @ '' more objects. Closing stream.'')),
           (''total'', JNum t),
           (''counter'', JNum c),
           (''missing'', JNum (t - c))]"

text \<open>
  The shape of every configuration the event loop can reach: at most one piece of work is
  outstanding, and only while the stream is reading.
\<close>

definition wf_config :: "config \<Rightarrow> bool" where
  "wf_config c = (length (snd c) \<le> 1 \<and> (snd c = [] \<or> reading (fst c)))"

section \<open>Example inputs\<close>

definition example_opts :: query_opts where
  "example_opts = \<lparr> scroll = JUndefined, query = JObj [(''index'', JStr ''logs'')] \<rparr>"

definition example_stream :: stream where
  "example_stream = LibElasticsearchScrollStream example_opts [''_id''] True"

definition example_hit :: hit where
  "example_hit =
     \<lparr> hit_fields = None,
       hit_source = [(''name'', JStr ''ada''), (''_id'', JStr ''shadowed'')],
       hit_attrs = [(''_id'', JStr ''doc-1''), (''_score'', JNum 1)] \<rparr>"

definition example_shards :: shards where
  "example_shards = \<lparr> sh_total = 5, successful = 5, failed = 0 \<rparr>"

definition page_two_of_three :: body where
  "page_two_of_three =
     \<lparr> hits = [example_hit, example_hit], hits_total = Relation 3 ''eq'',
       timedOut = False, shards = example_shards, scroll_id = ''token-1'' \<rparr>"

definition page_last :: body where
  "page_last =
     \<lparr> hits = [example_hit], hits_total = Count 3,
       timedOut = False, shards = example_shards, scroll_id = ''token-2'' \<rparr>"

definition page_empty :: body where
  "page_empty =
     \<lparr> hits = [], hits_total = Count 0,
       timedOut = False, shards = example_shards, scroll_id = ''token-0'' \<rparr>"

definition page_shard_failed :: body where
  "page_shard_failed =
     \<lparr> hits = [example_hit], hits_total = Count 5, timedOut = False,
       shards = \<lparr> sh_total = 5, successful = 4, failed = 1 \<rparr>, scroll_id = ''token-3'' \<rparr>"

definition connection_error :: jsval where
  "connection_error = JObj [(''message'', JStr ''No Living connections'')]"

text \<open>The example stream after its first pull.\<close>

definition reading_stream :: stream where
  "reading_stream = example_stream \<lparr> reading := True \<rparr>"

section \<open>The callback, branch by branch\<close>

lemmas example_defs = example_opts_def example_stream_def example_hit_def example_shards_def
  page_two_of_three_def page_last_def page_empty_def page_shard_failed_def connection_error_def
  reading_stream_def
  LibElasticsearchScrollStream_def js_or_def

lemma forEach_hit_eq:
  "forEach_hit self hs =
     (self \<lparr> counter := counter self + int (length hs) \<rparr>, map (push_of self) hs)"
proof (induction hs arbitrary: self)
  case Nil
  show ?case by simp
next
  case (Cons h hs)
  show ?case by (simp add: Cons.IH push_of_def Let_def add.assoc)
qed

lemma spawned_push_of [simp]: "spawned (push_of self h) = []"
  by (simp add: push_of_def Let_def)

lemma push_of_total [simp]: "push_of (self \<lparr> total_hits := t \<rparr>) = push_of self"
  by (rule ext) (simp add: push_of_def)

lemma spawned_pushes [simp]: "concat (map spawned (map (push_of self) hs)) = []"
  by (induction hs) (simp_all add: push_of_def Let_def)

lemma push_of_not_error [simp]: "EmitError e \<noteq> push_of self h"
  by (simp add: push_of_def Let_def)

lemma push_of_is_push [simp]: "is_push (push_of self h)"
  by (simp add: push_of_def Let_def)

lemma gm_client_error:
  "truthy err \<Longrightarrow> getMoreUntilDone err response self = (self, [EmitError err])"
  by (simp add: getMoreUntilDone_def)

lemma gm_clean_page:
  assumes "clean_page err response"
  shows "getMoreUntilDone err response self =
     (let b = response_body response;
          self' = self \<lparr> total_hits := total_of (hits_total b),
                         counter := counter self + int (length (hits b)) \<rparr>;
          log = ConsoleLog (''Read '' @ num_str (int (length (hits b))) @ '' (''
                            @ num_str (counter self') @ ''/''
                            @ num_str (total_hits self') @ '')'')
      in (self', map (push_of self) (hits b)
                 @ [log, if total_hits self' \<noteq> counter self' \<and> \<not> forceClose self
                         then Scroll (scroll (options self)) (scroll_id b)
                         else ClearScroll [scroll_id b]]))"
  using assms
  by (simp add: getMoreUntilDone_def clean_page_def Let_def forEach_hit_eq push_of_def)

lemma gm_timed_out:
  assumes "\<not> truthy err" "timedOut (response_body response)"
  shows "getMoreUntilDone err response self =
     (self \<lparr> total_hits := total_of (hits_total (response_body response)) \<rparr>,
      [EmitError (JObj [(''message'', JStr ''Scroll request timed out''),
                        (''timedOut'', JBool True),
                        (''total'', JNum (total_of (hits_total (response_body response)))),
                        (''counter'', JNum (counter self))])])"
  using assms by (simp add: getMoreUntilDone_def Let_def)

lemma gm_shard_failed:
  assumes "\<not> truthy err" "\<not> timedOut (response_body response)"
    "failed (shards (response_body response)) > 0"
  shows "getMoreUntilDone err response self =
     (self \<lparr> total_hits := total_of (hits_total (response_body response)) \<rparr>,
      [EmitError (JObj [(''message'', JStr ''At least one shard failed''),
                        (''shards'', shards_val (shards (response_body response))),
                        (''total'', JNum (total_of (hits_total (response_body response)))),
                        (''counter'', JNum (counter self))])])"
  using assms by (simp add: getMoreUntilDone_def Let_def)

lemma gm_empty_page:
  assumes "\<not> truthy err" "\<not> timedOut (response_body response)"
    "\<not> failed (shards (response_body response)) > 0"
    "hits (response_body response) = []"
  shows "getMoreUntilDone err response self =
     (self \<lparr> total_hits := total_of (hits_total (response_body response)) \<rparr>,
      [ConsoleLog (''Read 0 ('' @ num_str (counter self) @ ''/''
                   @ num_str (total_of (hits_total (response_body response))) @ '')''),
       EmitError (no_more_hits_error (total_of (hits_total (response_body response)))
                                     (counter self))])"
  using assms by (simp add: getMoreUntilDone_def Let_def no_more_hits_error_def)

lemma gm_clean_page_no_error:
  "clean_page err response \<Longrightarrow> EmitError e \<notin> set (snd (getMoreUntilDone err response self))"
  by (auto simp: gm_clean_page Let_def)

lemma gm_cases:
  obtains (client_error) "truthy err"
  | (timed_out) "\<not> truthy err" "timedOut (response_body response)"
  | (shard_failed) "\<not> truthy err" "\<not> timedOut (response_body response)"
      "failed (shards (response_body response)) > 0"
  | (empty_page) "\<not> truthy err" "\<not> timedOut (response_body response)"
      "\<not> failed (shards (response_body response)) > 0" "hits (response_body response) = []"
  | (clean) "clean_page err response"
  unfolding clean_page_def by blast

lemma gm_reading [simp]: "reading (fst (getMoreUntilDone err response self)) = reading self"
  by (simp add: getMoreUntilDone_def Let_def forEach_hit_eq split: prod.splits)

lemma gm_spawned:
  "concat (map spawned (snd (getMoreUntilDone err response self)))
     \<in> {[], [AwaitReply], [AwaitClearAck]}"
  by (simp add: getMoreUntilDone_def Let_def forEach_hit_eq split: prod.splits)

section \<open>Reachable configurations\<close>

lemma wf_config_init: "wf_config (LibElasticsearchScrollStream q ef om, [])"
  by (simp add: wf_config_def)

lemma wf_single: "wf_config (s, ws) \<Longrightarrow> w \<in> set ws \<Longrightarrow> ws = [w] \<and> reading s"
  by (cases ws) (auto simp: wf_config_def)

lemma step_wf_config:
  assumes "wf_config c" and "step e c = Some (c', acts)"
  shows "wf_config c'"
proof (cases e)
  case Pull
  with assms show ?thesis
    by (cases c) (auto simp: wf_config_def read_def split: if_splits)
next
  case Close
  with assms show ?thesis
    by (cases c) (auto simp: wf_config_def close_def)
next
  case (Reply err response)
  obtain s ws where c: "c = (s, ws)" by (cases c)
  from assms Reply c have mem: "AwaitReply \<in> set ws"
    by (auto simp: complete_def split: if_splits)
  with assms(1) c have ws: "ws = [AwaitReply]" and r: "reading s"
    using wf_single by blast+
  define ws' where "ws' = concat (map spawned (snd (getMoreUntilDone err response s)))"
  have ws': "ws' \<in> {[], [AwaitReply], [AwaitClearAck]}"
    unfolding ws'_def by (rule gm_spawned)
  from assms(2) Reply c ws
  have c': "c' = (fst (getMoreUntilDone err response s), ws')"
    unfolding ws'_def by (auto simp: complete_def split: prod.splits)
  show ?thesis
    using ws' r by (auto simp: c' wf_config_def)
next
  case (ClearAck err)
  obtain s ws where c: "c = (s, ws)" by (cases c)
  from assms ClearAck c have mem: "AwaitClearAck \<in> set ws"
    by (auto simp: complete_def split: if_splits)
  with assms(1) c have ws: "ws = [AwaitClearAck]" and r: "reading s"
    using wf_single by blast+
  from assms(2) ClearAck c ws r show ?thesis
    by (auto simp: complete_def clearScroll_callback_def wf_config_def)
next
  case Immediate
  obtain s ws where c: "c = (s, ws)" by (cases c)
  from assms Immediate c have mem: "AwaitImmediate \<in> set ws"
    by (auto simp: complete_def split: if_splits)
  with assms(1) c have ws: "ws = [AwaitImmediate]"
    using wf_single by blast
  from assms(2) Immediate c ws show ?thesis
    by (auto simp: complete_def end_correctly_def wf_config_def)
qed

lemma run_wf_config:
  "wf_config c \<Longrightarrow> run evs c = Some (c', acts) \<Longrightarrow> wf_config c'"
proof (induction evs arbitrary: c acts)
  case Nil
  then show ?case by simp
next
  case (Cons e evs)
  from Cons.prems(2) obtain c1 a1 a2
    where s: "step e c = Some (c1, a1)" and r: "run evs c1 = Some (c', a2)"
    by (auto split: option.splits)
  from step_wf_config [OF Cons.prems(1) s] have "wf_config c1" .
  from Cons.IH [OF this r] show ?case .
qed

lemma reachable_wf:
  "run evs (LibElasticsearchScrollStream q ef om, []) = Some (c, acts) \<Longrightarrow> wf_config c"
  using run_wf_config [OF wf_config_init] by blast

section \<open>Forced stop, records and failed streams\<close>

lemma gm_forceClose [simp]:
  "forceClose (fst (getMoreUntilDone err response self)) = forceClose self"
  by (simp add: getMoreUntilDone_def Let_def forEach_hit_eq split: prod.splits)

lemma push_of_not_call [simp]: "\<not> client_call (push_of self h)" "\<not> is_scroll (push_of self h)"
  by (simp_all add: push_of_def Let_def)




lemma filter_call_pushes [simp]: "filter client_call (map (push_of self) hs) = []"
  by (induction hs) simp_all

lemma get_prop_set_prop:
  "get_prop (set_prop r k v) k' = (if k' = k then v else get_prop r k')"
  by (simp add: get_prop_def set_prop_def update_conv')

lemma keys_set_prop: "fst ` set (set_prop r k v) = insert k (fst ` set r)"
  by (simp add: set_prop_def dom_update)

lemma get_prop_foldl:
  "get_prop (foldl (\<lambda>r entry. set_prop r entry (get_prop a entry)) base extra) k
     = (if k \<in> set extra then get_prop a k else get_prop base k)"
  by (induction extra arbitrary: base) (simp_all add: get_prop_set_prop)

lemma keys_foldl:
  "fst ` set (foldl (\<lambda>r entry. set_prop r entry (get_prop a entry)) base extra)
     = fst ` set base \<union> set extra"
  by (induction extra arbitrary: base) (auto simp: keys_set_prop)

lemma filter_push_pushes [simp]: "filter is_push (map (push_of self) hs) = map (push_of self) hs"
  by (induction hs) simp_all

lemma gm_error_no_spawn:
  assumes "EmitError e \<in> set (snd (getMoreUntilDone err response self))"
  shows "concat (map spawned (snd (getMoreUntilDone err response self))) = []"
proof (cases rule: gm_cases [where err = err and response = response])
  case client_error
  then show ?thesis by (simp add: gm_client_error)
next
  case timed_out
  then show ?thesis by (simp add: gm_timed_out)
next
  case shard_failed
  then show ?thesis by (simp add: gm_shard_failed)
next
  case empty_page
  then show ?thesis by (simp add: gm_empty_page)
next
  case clean
  from gm_clean_page_no_error [OF clean] assms show ?thesis by simp
qed

lemma run_idle_reading:
  "reading s \<Longrightarrow> run evs (s, []) = Some ((s', ws'), acts)
     \<Longrightarrow> reading s' \<and> ws' = [] \<and> acts = [] \<and> set evs \<subseteq> {Pull, Close}"
proof (induction evs arbitrary: s acts)
  case Nil
  then show ?case by simp
next
  case (Cons ev evs)
  from Cons.prems(2) obtain c1 a1 a2
    where st: "step ev (s, []) = Some (c1, a1)" and r: "run evs c1 = Some ((s', ws'), a2)"
      and acts: "acts = a1 @ a2"
    by (auto split: option.splits)
  from st Cons.prems(1) have ev: "ev = Pull \<or> ev = Close"
    by (cases ev) (simp_all add: complete_def)
  with st Cons.prems(1) obtain s1 where c1: "c1 = (s1, [])" and r1: "reading s1" and a1: "a1 = []"
    by (auto simp: read_def close_def)
  from Cons.IH [OF r1 r [unfolded c1]] ev show ?case by (auto simp: acts a1)
qed

section \<open>Client errors\<close>

text \<open>
  C1, as the specification states it: after a client error the in-flight flag is false.
  It is not. A pull sets \<open>_reading\<close>, and the error branch of the callback returns
  without touching it: after the pull and a failed search the flag is still set.
\<close>

theorem client_error_keeps_reading_counterexample:
  "\<not> (reading (fst (getMoreUntilDone connection_error (Bare page_empty)
                      (fst (read example_stream)))) = False)"
  by (simp add: getMoreUntilDone_def read_def example_defs)

text \<open>
  C1, amended: when the search or scroll call outstanding in a reachable configuration
  fails, the callback leaves the stream as it is, with the in-flight flag still true, its
  only action is the \<open>error\<close> event carrying the cause as the client gave it, and no work is
  outstanding afterwards: no client call is made and nothing is retried.
\<close>

theorem client_error_no_retry:
  assumes "run evs (LibElasticsearchScrollStream q ef om, []) = Some ((self, ws), acts)"
    and "AwaitReply \<in> set ws"
    and "truthy err"
  shows "step (Reply err response) (self, ws) = Some ((self, []), [EmitError err])
         \<and> reading self"
proof -
  from reachable_wf [OF assms(1)] have "wf_config (self, ws)" .
  from wf_single [OF this assms(2)] have ws: "ws = [AwaitReply]" and r: "reading self"
    by simp_all
  show ?thesis
    by (simp add: ws r complete_def gm_client_error [OF assms(3)])
qed

text \<open>The amended C1 at a failed first search.\<close>

theorem client_error_no_retry_witness:
  "step (Reply connection_error (Bare page_empty))
        (example_stream \<lparr> reading := True \<rparr>, [AwaitReply])
     = Some ((example_stream \<lparr> reading := True \<rparr>, []), [EmitError connection_error])
   \<and> reading (example_stream \<lparr> reading := True \<rparr>)"
proof -
  have r: "run [Pull] (LibElasticsearchScrollStream example_opts [''_id''] True, [])
             = Some ((example_stream \<lparr> reading := True \<rparr>, [AwaitReply]),
                     [Search (options example_stream)])"
    by (simp add: read_def example_defs)
  have m: "AwaitReply \<in> set [AwaitReply]" by simp
  have t: "truthy connection_error" by (simp add: connection_error_def)
  from client_error_no_retry [OF r m t] show ?thesis .
qed

section \<open>The expected total\<close>

text \<open>
  C7. For every successful response the callback stores as the expected total the plain
  integer the response reports, whether \<open>hits.total\<close> is a plain count \<open>n\<close> or an object
  with value \<open>n\<close> and a relation, and whether the payload is wrapped in \<open>response.body\<close>
  or not.
\<close>

theorem total_normalised:
  assumes "\<not> truthy err"
    and "hits_total (response_body response) = Count n
         \<or> hits_total (response_body response) = Relation n rel"
  shows "total_hits (fst (getMoreUntilDone err response self)) = n"
  using assms
  by (auto simp: getMoreUntilDone_def Let_def forEach_hit_eq split: prod.splits)

text \<open>C7 on a wrapped response with a structured total and a bare one with a count.\<close>

theorem total_normalised_witness:
  "total_hits (fst (getMoreUntilDone JNull (Wrapped page_two_of_three) example_stream)) = 3
   \<and> total_hits (fst (getMoreUntilDone JUndefined (Bare page_last) example_stream)) = 3"
  using total_normalised [of JNull "Wrapped page_two_of_three" 3 "''eq''" example_stream]
        total_normalised [of JUndefined "Bare page_last" 3 "''eq''" example_stream]
  by (simp add: page_two_of_three_def page_last_def)

section \<open>Errors raised by the callback\<close>

text \<open>
  C2. The incomplete-result error is for a page without hits received while the counter
  is below the expected total. The branch tests only the number of hits, so it also fires
  when nothing is missing: a first search that matches no document (total 0, counter 0,
  no hits) signals the error, with the message \<open>Expected 0 more objects\<close> and a missing
  count of 0, and then neither releases the scroll nor ends the stream, and the in-flight
  flag stays set. The path after a page with hits finalizes when the total equals the
  counter; this one does not.
\<close>

theorem empty_result_signals_error:
  "run [Pull, Reply JNull (Bare page_empty)] (example_stream, [])
     = Some ((reading_stream, []),
             [Search (options example_stream),
              ConsoleLog ''Read 0 (0/0)'',
              EmitError (JObj [(''message'',
                                JStr ''No more hits. Expected 0 more objects. Closing stream.''),
                               (''total'', JNum 0), (''counter'', JNum 0),
                               (''missing'', JNum 0)])])"
  by (simp add: complete_def getMoreUntilDone_def read_def example_defs Let_def
      num_str_def nat_str.simps)

text \<open>
  C3, as the specification states it: every error signalled carries the current total and
  counter. The client error does not: the callback hands the cause over as it is, and a
  cause with only a message has neither.
\<close>

theorem client_error_payload_counterexample:
  "EmitError connection_error
     \<in> set (snd (getMoreUntilDone connection_error (Bare page_empty) (fst (read example_stream))))
   \<and> js_prop connection_error ''total'' = JUndefined
   \<and> js_prop connection_error ''counter'' = JUndefined"
  by (simp add: getMoreUntilDone_def connection_error_def get_prop_def)

text \<open>
  C3, amended: the errors the callback builds itself (timeout, shard failure, no more
  hits) carry a message and the current total and counter of the stream; a client error
  is signalled as the cause given by the client, unchanged.
\<close>

theorem engine_errors_carry_counts:
  assumes "EmitError e \<in> set (snd (getMoreUntilDone err response self))"
  shows "if truthy err then e = err
         else (\<exists>m. js_prop e ''message'' = JStr m)
              \<and> js_prop e ''total'' = JNum (total_hits (fst (getMoreUntilDone err response self)))
              \<and> js_prop e ''counter'' = JNum (counter (fst (getMoreUntilDone err response self)))"
proof (cases rule: gm_cases [where err = err and response = response])
  case client_error
  with assms show ?thesis by (simp add: gm_client_error)
next
  case timed_out
  with assms show ?thesis by (simp add: gm_timed_out get_prop_def)
next
  case shard_failed
  with assms show ?thesis by (simp add: gm_shard_failed get_prop_def)
next
  case empty_page
  with assms show ?thesis by (simp add: gm_empty_page no_more_hits_error_def get_prop_def)
next
  case clean
  from gm_clean_page_no_error [OF clean] assms show ?thesis by simp
qed

text \<open>The amended C3 on a page with a failed shard, received while the counter is 0.\<close>

theorem engine_errors_carry_counts_witness:
  "(\<exists>m. js_prop (JObj [(''message'', JStr ''At least one shard failed''),
                       (''shards'', shards_val (shards page_shard_failed)),
                       (''total'', JNum 5), (''counter'', JNum 0)]) ''message'' = JStr m)
   \<and> js_prop (JObj [(''message'', JStr ''At least one shard failed''),
                    (''shards'', shards_val (shards page_shard_failed)),
                    (''total'', JNum 5), (''counter'', JNum 0)]) ''total''
       = JNum (total_hits (fst (getMoreUntilDone JNull (Bare page_shard_failed) example_stream)))
   \<and> js_prop (JObj [(''message'', JStr ''At least one shard failed''),
                    (''shards'', shards_val (shards page_shard_failed)),
                    (''total'', JNum 5), (''counter'', JNum 0)]) ''counter''
       = JNum (counter (fst (getMoreUntilDone JNull (Bare page_shard_failed) example_stream)))"
proof -
  have m: "EmitError (JObj [(''message'', JStr ''At least one shard failed''),
                            (''shards'', shards_val (shards page_shard_failed)),
                            (''total'', JNum 5), (''counter'', JNum 0)])
             \<in> set (snd (getMoreUntilDone JNull (Bare page_shard_failed) example_stream))"
    by (simp add: getMoreUntilDone_def Let_def example_defs)
  from engine_errors_carry_counts [OF m] show ?thesis by simp
qed

section \<open>Continuation and forced stop\<close>



section \<open>The in-flight guard\<close>

text \<open>
  C5. A pull made while the in-flight flag is set changes nothing: the stream and the
  outstanding work are the same, and there is no action, so no client call and no push.
  In every configuration reachable from a new stream at most one piece of asynchronous
  work is outstanding, so there are never two overlapping queries.
\<close>

theorem pull_in_flight_noop:
  "(reading self \<longrightarrow> read self = (self, []) \<and> step Pull (self, ws) = Some ((self, ws), []))
   \<and> (run evs (LibElasticsearchScrollStream q ef om, []) = Some ((s, ws'), acts) \<longrightarrow>
        length ws' \<le> 1 \<and> length (filter (\<lambda>w. w = AwaitReply) ws') \<le> 1)"
proof (intro conjI impI)
  assume "reading self"
  then show "read self = (self, [])" "step Pull (self, ws) = Some ((self, ws), [])"
    by (simp_all add: read_def)
next
  assume "run evs (LibElasticsearchScrollStream q ef om, []) = Some ((s, ws'), acts)"
  from reachable_wf [OF this] show l: "length ws' \<le> 1" by (simp add: wf_config_def)
  have "length (filter (\<lambda>w. w = AwaitReply) ws') \<le> length ws'" by (rule length_filter_le)
  with l show "length (filter (\<lambda>w. w = AwaitReply) ws') \<le> 1" by linarith
qed

text \<open>C5 on the example stream pulled three times in a row.\<close>

theorem pull_in_flight_noop_witness:
  "read reading_stream = (reading_stream, [])
   \<and> step Pull (reading_stream, [AwaitReply]) = Some ((reading_stream, [AwaitReply]), [])
   \<and> run [Pull, Pull, Pull] (example_stream, [])
       = Some ((reading_stream, [AwaitReply]), [Search (options example_stream)])
   \<and> length [AwaitReply] \<le> (1::nat)"
proof -
  have r: "run [Pull, Pull, Pull] (LibElasticsearchScrollStream example_opts [''_id''] True, [])
       = Some ((reading_stream, [AwaitReply]), [Search (options example_stream)])"
    by (simp add: read_def example_defs)
  have t: "reading reading_stream" by (simp add: reading_stream_def)
  from pull_in_flight_noop [where self = reading_stream and ws = "[AwaitReply]"
      and evs = "[Pull, Pull, Pull]" and q = example_opts and ef = "[''_id'']" and om = True
      and s = reading_stream and ws' = "[AwaitReply]" and acts = "[Search (options example_stream)]"]
    r t
  show ?thesis by (simp add: example_stream_def)
qed

section \<open>Records\<close>

text \<open>
  C6. The chunks pushed for a page that passes the checks are the records of its hits, in
  page order. In the record of a hit, every requested metadata field has the value of the
  hit's top-level attribute of that name, overwriting a base field of the same name, and
  every other field has the value it has in the base: the field projection of the hit
  when it has one, otherwise its document. The record has the keys of the base and the
  requested names, and no other.
\<close>

theorem record_fields:
  "(clean_page err response \<longrightarrow>
      filter is_push (snd (getMoreUntilDone err response self)) =
        map (\<lambda>h. Push (if objectMode self then Object (ref_results (extrafields self) h)
                       else Text (ref_results (extrafields self) h)))
            (hits (response_body response)))
   \<and> get_prop (ref_results extra h) k =
        (if k \<in> set extra then get_prop (hit_attrs h) k
         else get_prop (case hit_fields h of Some f \<Rightarrow> f | None \<Rightarrow> hit_source h) k)
   \<and> fst ` set (ref_results extra h) =
        fst ` set (case hit_fields h of Some f \<Rightarrow> f | None \<Rightarrow> hit_source h) \<union> set extra"
proof (intro conjI impI)
  assume "clean_page err response"
  then have "filter is_push (snd (getMoreUntilDone err response self))
               = map (push_of self) (hits (response_body response))"
    by (simp add: gm_clean_page Let_def)
  then show "filter is_push (snd (getMoreUntilDone err response self)) =
        map (\<lambda>h. Push (if objectMode self then Object (ref_results (extrafields self) h)
                       else Text (ref_results (extrafields self) h)))
            (hits (response_body response))"
    by (simp add: push_of_def Let_def)
next
  show "get_prop (ref_results extra h) k =
        (if k \<in> set extra then get_prop (hit_attrs h) k
         else get_prop (case hit_fields h of Some f \<Rightarrow> f | None \<Rightarrow> hit_source h) k)"
    unfolding ref_results_def by (rule get_prop_foldl)
next
  show "fst ` set (ref_results extra h) =
        fst ` set (case hit_fields h of Some f \<Rightarrow> f | None \<Rightarrow> hit_source h) \<union> set extra"
    unfolding ref_results_def by (rule keys_foldl)
qed

text \<open>
  C6 on the example hit, whose document has an \<open>_id\<close> field of its own: the requested
  \<open>_id\<close> replaces it.
\<close>

theorem record_fields_witness:
  "filter is_push (snd (getMoreUntilDone JNull (Bare page_last) reading_stream))
     = [Push (Object [(''name'', JStr ''ada''), (''_id'', JStr ''doc-1'')])]
   \<and> get_prop (ref_results [''_id''] example_hit) ''_id'' = JStr ''doc-1''
   \<and> get_prop (ref_results [''_id''] example_hit) ''name'' = JStr ''ada''
   \<and> fst ` set (ref_results [''_id''] example_hit) = {''name'', ''_id''}"
proof -
  have c: "clean_page JNull (Bare page_last)"
    by (simp add: clean_page_def example_defs)
  have rr: "ref_results [''_id''] example_hit = [(''name'', JStr ''ada''), (''_id'', JStr ''doc-1'')]"
    by (simp add: ref_results_def set_prop_def get_prop_def example_hit_def)
  note a = record_fields [where err = JNull and response = "Bare page_last"
      and self = reading_stream and extra = "[''_id'']" and h = example_hit and k = "''_id''"]
  note b = record_fields [where err = JNull and response = "Bare page_last"
      and self = reading_stream and extra = "[''_id'']" and h = example_hit and k = "''name''"]
  have s: "objectMode reading_stream" "extrafields reading_stream = [''_id'']"
    "hits page_last = [example_hit]"
    by (simp_all add: reading_stream_def example_stream_def LibElasticsearchScrollStream_def
        page_last_def)
  from a c have 1: "filter is_push (snd (getMoreUntilDone JNull (Bare page_last) reading_stream))
     = [Push (Object [(''name'', JStr ''ada''), (''_id'', JStr ''doc-1'')])]"
    by (simp add: s rr)
  from a have 2: "get_prop (ref_results [''_id''] example_hit) ''_id'' = JStr ''doc-1''"
    by (simp add: example_hit_def get_prop_def)
  from b have 3: "get_prop (ref_results [''_id''] example_hit) ''name'' = JStr ''ada''"
    by (simp add: example_hit_def get_prop_def)
  from a have 4: "fst ` set (ref_results [''_id''] example_hit) = {''name'', ''_id''}"
    by (simp add: example_hit_def insert_commute)
  from 1 2 3 4 show ?thesis by simp
qed

section \<open>Termination\<close>

text \<open>
  C8. When a page that passes the checks ends the query (the counter reaches the expected
  total, or a forced stop was requested), the callback only releases the scroll: it
  neither ends the stream nor resets it, the in-flight flag and the forced-stop flag are
  as before and the counter is the count so far. The callback of the release only
  schedules the deferred function. The reset (in-flight flag false, counter 0, forced stop
  false) and the end of the stream happen when the deferred function runs, as a step of
  its own.
\<close>

theorem termination_deferred:
  fixes err response self e
  defines "s1 \<equiv> fst (getMoreUntilDone err response self)"
    and "acts1 \<equiv> snd (getMoreUntilDone err response self)"
  assumes "clean_page err response"
    and "total_of (hits_total (response_body response))
           = counter self + int (length (hits (response_body response)))
         \<or> forceClose self"
  shows "step (Reply err response) (self, [AwaitReply]) = Some ((s1, [AwaitClearAck]), acts1)
    \<and> PushNull \<notin> set acts1 \<and> SetImmediate \<notin> set acts1
    \<and> reading s1 = reading self \<and> forceClose s1 = forceClose self
    \<and> counter s1 = counter self + int (length (hits (response_body response)))
    \<and> step (ClearAck e) (s1, [AwaitClearAck])
        = Some ((s1, [AwaitImmediate]), (if truthy e then [ConsoleError e] else []) @ [SetImmediate])
    \<and> step Immediate (s1, [AwaitImmediate])
        = Some ((s1 \<lparr> reading := False, counter := 0, forceClose := False \<rparr>, []), [PushNull])"
proof -
  have sp: "concat (map spawned acts1) = [AwaitClearAck]"
    using assms(3,4) unfolding acts1_def by (auto simp: gm_clean_page Let_def)
  have r: "step (Reply err response) (self, [AwaitReply]) = Some ((s1, [AwaitClearAck]), acts1)"
    using sp unfolding s1_def acts1_def by (simp add: complete_def case_prod_beta)
  have n: "PushNull \<notin> set acts1 \<and> SetImmediate \<notin> set acts1"
    using assms(3) unfolding acts1_def by (auto simp: gm_clean_page Let_def push_of_def)
  have c: "counter s1 = counter self + int (length (hits (response_body response)))"
    using assms(3) unfolding s1_def by (simp add: gm_clean_page Let_def)
  have f: "reading s1 = reading self \<and> forceClose s1 = forceClose self"
    unfolding s1_def by simp
  have a: "step (ClearAck e) (s1, [AwaitClearAck])
        = Some ((s1, [AwaitImmediate]), (if truthy e then [ConsoleError e] else []) @ [SetImmediate])"
    by (simp add: complete_def clearScroll_callback_def)
  have i: "step Immediate (s1, [AwaitImmediate])
        = Some ((s1 \<lparr> reading := False, counter := 0, forceClose := False \<rparr>, []), [PushNull])"
    by (simp add: complete_def end_correctly_def)
  from r n c f a i show ?thesis by blast
qed

text \<open>C8 on the last page of the example query.\<close>

theorem termination_deferred_witness:
  "step (Reply JNull (Bare page_last)) (reading_stream \<lparr> counter := 2 \<rparr>, [AwaitReply])
     = Some ((reading_stream \<lparr> counter := 3, total_hits := 3 \<rparr>, [AwaitClearAck]),
             [Push (Object [(''name'', JStr ''ada''), (''_id'', JStr ''doc-1'')]),
              ConsoleLog ''Read 1 (3/3)'', ClearScroll [''token-2'']])
   \<and> step (ClearAck JNull) (reading_stream \<lparr> counter := 3, total_hits := 3 \<rparr>, [AwaitClearAck])
     = Some ((reading_stream \<lparr> counter := 3, total_hits := 3 \<rparr>, [AwaitImmediate]),
             [SetImmediate])
   \<and> step Immediate (reading_stream \<lparr> counter := 3, total_hits := 3 \<rparr>, [AwaitImmediate])
     = Some ((example_stream \<lparr> total_hits := 3 \<rparr>, []), [PushNull])"
proof -
  have c: "clean_page JNull (Bare page_last)"
    by (simp add: clean_page_def example_defs)
  have t: "total_of (hits_total (response_body (Bare page_last)))
             = counter (reading_stream \<lparr> counter := 2 \<rparr>)
               + int (length (hits (response_body (Bare page_last))))
           \<or> forceClose (reading_stream \<lparr> counter := 2 \<rparr>)"
    by (simp add: example_defs)
  have g: "getMoreUntilDone JNull (Bare page_last) (reading_stream \<lparr> counter := 2 \<rparr>)
             = (reading_stream \<lparr> counter := 3, total_hits := 3 \<rparr>,
                [Push (Object [(''name'', JStr ''ada''), (''_id'', JStr ''doc-1'')]),
                 ConsoleLog ''Read 1 (3/3)'', ClearScroll [''token-2'']])"
    by (simp add: getMoreUntilDone_def Let_def example_defs ref_results_def set_prop_def get_prop_def
        num_str_def nat_str.simps)
  from termination_deferred [OF c t, of JNull] show ?thesis
    by (simp add: g) (simp add: example_defs)
qed

text \<open>
  C9. Whether the release of the scroll succeeds or fails, finalization is the same: the
  stream is reset and ended by the deferred function; a failure is written to the
  console and never signalled as an \<open>error\<close> event.
\<close>

theorem release_failure_swallowed:
  "run [ClearAck e, Immediate] (self, [AwaitClearAck])
     = Some ((self \<lparr> reading := False, counter := 0, forceClose := False \<rparr>, []),
             (if truthy e then [ConsoleError e] else []) @ [SetImmediate, PushNull])"
  by (simp add: complete_def clearScroll_callback_def end_correctly_def)

text \<open>C9 on a release that fails and on one that succeeds.\<close>

theorem release_failure_swallowed_witness:
  "run [ClearAck connection_error, Immediate]
       (reading_stream \<lparr> counter := 3, total_hits := 3 \<rparr>, [AwaitClearAck])
     = Some ((example_stream \<lparr> total_hits := 3 \<rparr>, []),
             [ConsoleError connection_error, SetImmediate, PushNull])
   \<and> run [ClearAck JUndefined, Immediate]
       (reading_stream \<lparr> counter := 3, total_hits := 3 \<rparr>, [AwaitClearAck])
     = Some ((example_stream \<lparr> total_hits := 3 \<rparr>, []), [SetImmediate, PushNull])"
  using release_failure_swallowed [of connection_error "reading_stream \<lparr> counter := 3, total_hits := 3 \<rparr>"]
    release_failure_swallowed [of JUndefined "reading_stream \<lparr> counter := 3, total_hits := 3 \<rparr>"]
  by (simp add: example_defs)

section \<open>After an error\<close>

text \<open>
  C10. Once the callback of a search or scroll call has signalled an error, in a
  configuration reachable from a new stream, nothing is outstanding, so only pulls and
  calls of \<open>close\<close> can follow. After any number of them the in-flight flag is still
  set, no action has taken place (no search, scroll or release call, no push), and a
  further pull is a no-op.
\<close>

theorem failed_stream_stays_reading:
  assumes "run evs0 (LibElasticsearchScrollStream q ef om, []) = Some (c, acts0)"
    and "step (Reply err response) c = Some (c1, acts1)"
    and "EmitError e \<in> set acts1"
    and "run evs c1 = Some ((s2, ws2), acts2)"
  shows "reading s2 \<and> ws2 = [] \<and> acts2 = [] \<and> set evs \<subseteq> {Pull, Close}
         \<and> step Pull (s2, ws2) = Some ((s2, ws2), [])"
proof -
  obtain s ws where c: "c = (s, ws)" by (cases c)
  from reachable_wf [OF assms(1)] c have wf: "wf_config (s, ws)" by simp
  from assms(2) c have mem: "AwaitReply \<in> set ws"
    by (auto simp: complete_def split: if_splits)
  from wf_single [OF wf mem] have ws: "ws = [AwaitReply]" and r: "reading s" by simp_all
  from assms(2) c ws
  have acts1: "acts1 = snd (getMoreUntilDone err response s)"
    and c1: "c1 = (fst (getMoreUntilDone err response s),
                   concat (map spawned (snd (getMoreUntilDone err response s))))"
    by (auto simp: complete_def split: prod.splits)
  from assms(3) acts1 have "concat (map spawned (snd (getMoreUntilDone err response s))) = []"
    using gm_error_no_spawn by blast
  with c1 have c1': "c1 = (fst (getMoreUntilDone err response s), [])" by simp
  have r1: "reading (fst (getMoreUntilDone err response s))" using r by simp
  from run_idle_reading [OF r1 assms(4) [unfolded c1']]
  have "reading s2 \<and> ws2 = [] \<and> acts2 = [] \<and> set evs \<subseteq> {Pull, Close}" .
  then show ?thesis by (simp add: read_def)
qed

text \<open>C10 on the example stream after a failed first search.\<close>

theorem failed_stream_stays_reading_witness:
  "reading (close reading_stream)
   \<and> run [Pull, Close, Pull] (reading_stream, [])
       = Some ((close reading_stream, []), [])
   \<and> step Pull (close reading_stream, []) = Some ((close reading_stream, []), [])"
proof -
  have r0: "run [Pull] (LibElasticsearchScrollStream example_opts [''_id''] True, [])
       = Some ((reading_stream, [AwaitReply]), [Search (options example_stream)])"
    by (simp add: read_def example_defs)
  have s: "step (Reply connection_error (Bare page_empty)) (reading_stream, [AwaitReply])
       = Some ((reading_stream, []), [EmitError connection_error])"
    by (simp add: complete_def getMoreUntilDone_def connection_error_def)
  have m: "EmitError connection_error \<in> set [EmitError connection_error]" by simp
  have r: "run [Pull, Close, Pull] (reading_stream, []) = Some ((close reading_stream, []), [])"
    by (simp add: read_def close_def reading_stream_def)
  from failed_stream_stays_reading [OF r0 s m r] r show ?thesis by simp
qed

end
